theory Spec2Isabelle
  imports Main
begin

section \<open>Rate limiter\<close>

text \<open>
  The class \<open>RateLimiter\<close> keeps a map from identifiers to entries together with three
  read-only settings. JavaScript numbers are modelled as unbounded integers (every value the
  code computes here is an integer well below \<open>2^53\<close>). \<open>Date.now()\<close> is an explicit
  argument \<open>now\<close> of each method, and a method returns the updated limiter.
\<close>

record RateLimitEntry =
  count :: int
  resetTime :: int
  blocked :: bool

record RateLimiter =
  attempts :: "string \<rightharpoonup> RateLimitEntry"
  maxAttempts :: int
  windowMs :: int
  blockDurationMs :: int

definition newRateLimiter :: "int \<Rightarrow> int \<Rightarrow> int \<Rightarrow> RateLimiter" where
  "newRateLimiter m w b =
     \<lparr>attempts = Map.empty, maxAttempts = m, windowMs = w, blockDurationMs = b\<rparr>"

definition authRateLimiter :: RateLimiter where
  "authRateLimiter = newRateLimiter 5 (15 * 60 * 1000) (30 * 60 * 1000)"

definition generalRateLimiter :: RateLimiter where
  "generalRateLimiter = newRateLimiter 100 (60 * 1000) (5 * 60 * 1000)"

definition isRateLimited :: "int \<Rightarrow> string \<Rightarrow> RateLimiter \<Rightarrow> bool \<times> RateLimiter" where
  "isRateLimited now identifier rl =
     (case attempts rl identifier of
        None \<Rightarrow> (False, rl)
      | Some entry \<Rightarrow>
          if blocked entry \<and> now > resetTime entry
            then (False, rl\<lparr>attempts := (attempts rl)(identifier := None)\<rparr>)
          else if blocked entry
            then (True, rl)
          else if now > resetTime entry
            then (False, rl\<lparr>attempts := (attempts rl)(identifier := None)\<rparr>)
          else (count entry \<ge> maxAttempts rl, rl))"

definition recordFailedAttempt :: "int \<Rightarrow> string \<Rightarrow> RateLimiter \<Rightarrow> RateLimiter" where
  "recordFailedAttempt now identifier rl =
     (case attempts rl identifier of
        None \<Rightarrow>
          rl\<lparr>attempts := (attempts rl)(identifier \<mapsto>
            \<lparr>count = 1, resetTime = now + windowMs rl, blocked = False\<rparr>)\<rparr>
      | Some entry \<Rightarrow>
          if now > resetTime entry
            then rl\<lparr>attempts := (attempts rl)(identifier \<mapsto>
                   \<lparr>count = 1, resetTime = now + windowMs rl, blocked = False\<rparr>)\<rparr>
          else
            (let entry1 = entry\<lparr>count := count entry + 1\<rparr>;
                 entry2 = (if count entry1 \<ge> maxAttempts rl
                           then entry1\<lparr>blocked := True,
                                       resetTime := now + blockDurationMs rl\<rparr>
                           else entry1)
             in rl\<lparr>attempts := (attempts rl)(identifier \<mapsto> entry2)\<rparr>))"

definition recordSuccessfulAttempt :: "string \<Rightarrow> RateLimiter \<Rightarrow> RateLimiter" where
  "recordSuccessfulAttempt identifier rl =
     rl\<lparr>attempts := (attempts rl)(identifier := None)\<rparr>"

definition getRemainingAttempts :: "int \<Rightarrow> string \<Rightarrow> RateLimiter \<Rightarrow> int" where
  "getRemainingAttempts now identifier rl =
     (case attempts rl identifier of
        None \<Rightarrow> maxAttempts rl
      | Some entry \<Rightarrow>
          if now > resetTime entry then maxAttempts rl
          else max 0 (maxAttempts rl - count entry))"

text \<open>
  The admission decision: the callers reject a request when \<open>isRateLimited\<close> answers true,
  so a request is allowed exactly when it answers false.
\<close>

definition isAllowed :: "int \<Rightarrow> string \<Rightarrow> RateLimiter \<Rightarrow> bool" where
  "isAllowed now identifier rl = (\<not> fst (isRateLimited now identifier rl))"

text \<open>Sequences of method calls on one limiter, each call with its own clock reading.\<close>

datatype rl_call =
    RecordFailure int string
  | RecordSuccess string
  | IsRateLimited int string

fun rl_step :: "RateLimiter \<Rightarrow> rl_call \<Rightarrow> RateLimiter" where
  "rl_step rl (RecordFailure now i) = recordFailedAttempt now i rl"
| "rl_step rl (RecordSuccess i) = recordSuccessfulAttempt i rl"
| "rl_step rl (IsRateLimited now i) = snd (isRateLimited now i rl)"

fun rl_run :: "RateLimiter \<Rightarrow> rl_call list \<Rightarrow> RateLimiter" where
  "rl_run rl [] = rl"
| "rl_run rl (c # cs) = rl_run (rl_step rl c) cs"

text \<open>Consecutive failures of one identifier at the given clock readings.\<close>

fun recordFailures :: "int list \<Rightarrow> string \<Rightarrow> RateLimiter \<Rightarrow> RateLimiter" where
  "recordFailures [] identifier rl = rl"
| "recordFailures (t # ts) identifier rl =
     recordFailures ts identifier (recordFailedAttempt t identifier rl)"

section \<open>JavaScript values used by the cookie-backed modules\<close>

text \<open>
  Strings are byte strings. \<open>cookieStore.get(name)?.value\<close> is a \<open>string option\<close>
  (\<open>None\<close> for \<open>undefined\<close>); JavaScript treats \<open>undefined\<close>, \<open>null\<close> and the
  empty string as false in a condition.
\<close>

definition truthy :: "string option \<Rightarrow> bool" where
  "truthy v = (case v of None \<Rightarrow> False | Some s \<Rightarrow> s \<noteq> [])"

text \<open>
  A number read back from a cookie may be \<open>NaN\<close>: numbers that come out of \<open>parseInt\<close>
  are \<open>int option\<close>, with \<open>None\<close> for \<open>NaN\<close>. \<open>NaN\<close> and \<open>0\<close> are false in a
  condition, arithmetic on \<open>NaN\<close> gives \<open>NaN\<close>, and every comparison with \<open>NaN\<close> is false.
\<close>

definition truthy_num :: "int option \<Rightarrow> bool" where
  "truthy_num v = (case v of None \<Rightarrow> False | Some n \<Rightarrow> n \<noteq> 0)"

definition js_minus :: "int \<Rightarrow> int option \<Rightarrow> int option" where
  "js_minus a v = (case v of None \<Rightarrow> None | Some n \<Rightarrow> Some (a - n))"

definition js_greater :: "int option \<Rightarrow> int \<Rightarrow> bool" where
  "js_greater v b = (case v of None \<Rightarrow> False | Some n \<Rightarrow> n > b)"

text \<open>
  \<open>parseInt(s)\<close> without a radix: leading white space is skipped, one sign is read, a
  \<open>0x\<close>/\<open>0X\<close> prefix selects radix 16, and the longest run of digits of the radix is the
  value; no digit gives \<open>NaN\<close>. White space is the ASCII part of what JavaScript skips,
  and the value is exact (JavaScript rounds values of \<open>2^53\<close> and more).
\<close>

definition is_space :: "char \<Rightarrow> bool" where
  "is_space c = ((of_char c :: nat) \<in> {9, 10, 11, 12, 13, 32})"

definition digit_val :: "char \<Rightarrow> nat option" where
  "digit_val c =
     (let k = (of_char c :: nat) in
      if 48 \<le> k \<and> k \<le> 57 then Some (k - 48)
      else if 97 \<le> k \<and> k \<le> 122 then Some (k - 87)
      else if 65 \<le> k \<and> k \<le> 90 then Some (k - 55)
      else None)"

definition digit_of :: "nat \<Rightarrow> char \<Rightarrow> nat option" where
  "digit_of radix c =
     (case digit_val c of
        None \<Rightarrow> None
      | Some d \<Rightarrow> if d < radix then Some d else None)"

definition is_digit_of :: "nat \<Rightarrow> char \<Rightarrow> bool" where
  "is_digit_of radix c = (digit_of radix c \<noteq> None)"

definition digits_value :: "nat \<Rightarrow> string \<Rightarrow> nat" where
  "digits_value radix ds =
     foldl (\<lambda>acc c. acc * radix + (case digit_of radix c of None \<Rightarrow> 0 | Some d \<Rightarrow> d)) 0 ds"

definition has_hex_prefix :: "string \<Rightarrow> bool" where
  "has_hex_prefix s = (take 2 s = ''0x'' \<or> take 2 s = ''0X'')"

definition parseInt :: "string \<Rightarrow> int option" where
  "parseInt s =
     (let s1 = dropWhile is_space s;
          neg = (take 1 s1 = ''-'');
          s2 = (if take 1 s1 = ''-'' \<or> take 1 s1 = ''+'' then drop 1 s1 else s1);
          radix = (if has_hex_prefix s2 then 16 else 10);
          s3 = (if has_hex_prefix s2 then drop 2 s2 else s2);
          ds = takeWhile (is_digit_of radix) s3
      in if ds = [] then None
         else Some (if neg then - int (digits_value radix ds) else int (digits_value radix ds)))"

text \<open>\<open>n.toString()\<close> of an integer: its decimal digits, with a minus sign when negative.\<close>

definition digit_char :: "nat \<Rightarrow> char" where
  "digit_char d = ''0123456789'' ! d"

fun dec_digits :: "nat \<Rightarrow> string" where
  "dec_digits n =
     (if n < 10 then [digit_char n] else dec_digits (n div 10) @ [digit_char (n mod 10)])"

definition toString :: "int \<Rightarrow> string" where
  "toString n = (if n < 0 then CHR ''-'' # dec_digits (nat (- n)) else dec_digits (nat n))"

text \<open>\<open>s.split(c)\<close>: the pieces of \<open>s\<close> between the occurrences of \<open>c\<close>, never an empty list.\<close>

fun split :: "char \<Rightarrow> string \<Rightarrow> string list" where
  "split c [] = [[]]"
| "split c (x # xs) =
     (if x = c then [] # split c xs
      else (case split c xs of
              [] \<Rightarrow> [[x]]
            | p # ps \<Rightarrow> (x # p) # ps))"

text \<open>
  \<open>Buffer.from(s, 'hex')\<close> decodes two hexadecimal digits per byte and stops at the first
  pair that is not two hexadecimal digits (an odd last character is dropped).
\<close>

fun buffer_from_hex :: "string \<Rightarrow> nat list" where
  "buffer_from_hex (a # b # rest) =
     (case (digit_of 16 a, digit_of 16 b) of
        (Some x, Some y) \<Rightarrow> (16 * x + y) # buffer_from_hex rest
      | _ \<Rightarrow> [])"
| "buffer_from_hex _ = []"

text \<open>
  \<open>crypto.timingSafeEqual(a, b)\<close> throws a \<open>RangeError\<close> when the byte lengths differ and
  compares the bytes otherwise.
\<close>

datatype js_error = RangeError

definition timingSafeEqual :: "nat list \<Rightarrow> nat list \<Rightarrow> js_error + bool" where
  "timingSafeEqual a b = (if length a \<noteq> length b then Inl RangeError else Inr (a = b))"

section \<open>Cookie store\<close>

text \<open>
  A cookie carries its value and its \<open>maxAge\<close> in seconds (the attributes \<open>httpOnly\<close>,
  \<open>secure\<close> and \<open>sameSite\<close> are constant and left out). The store is a map from names to
  cookies; \<open>set\<close> overwrites and a later \<open>get\<close> sees it.
\<close>

record cookie =
  cvalue :: string
  maxAge :: int

type_synonym cookie_jar = "string \<rightharpoonup> cookie"

definition cookie_get :: "cookie_jar \<Rightarrow> string \<Rightarrow> string option" where
  "cookie_get jar name = map_option cvalue (jar name)"

definition cookie_set :: "cookie_jar \<Rightarrow> string \<Rightarrow> string \<Rightarrow> int \<Rightarrow> cookie_jar" where
  "cookie_set jar name v age = jar(name \<mapsto> \<lparr>cvalue = v, maxAge = age\<rparr>)"

definition cookie_delete :: "cookie_jar \<Rightarrow> string \<Rightarrow> cookie_jar" where
  "cookie_delete jar name = jar(name := None)"

section \<open>CSRF tokens\<close>

definition CSRF_TOKEN_NAME :: string where
  "CSRF_TOKEN_NAME = ''csrf-token''"

definition CSRF_SECRET_NAME :: string where
  "CSRF_SECRET_NAME = ''csrf-secret''"

definition TOKEN_LENGTH :: nat where
  "TOKEN_LENGTH = 32"

text \<open>
  \<open>generateToken()\<close> returns \<open>2 * TOKEN_LENGTH\<close> lower-case hexadecimal digits drawn at
  random, and an HMAC-SHA256 digest in hex has the same shape. The random draws are
  arguments of the model, and the keyed hash is an argument \<open>hm\<close> (key, then message).
\<close>

definition is_hex_string :: "string \<Rightarrow> bool" where
  "is_hex_string s =
     (length s = 2 * TOKEN_LENGTH \<and> list_all (\<lambda>c. c \<in> set ''0123456789abcdef'') s)"

definition generateCSRFToken ::
  "(string \<Rightarrow> string \<Rightarrow> string) \<Rightarrow> string \<Rightarrow> string \<Rightarrow> cookie_jar \<Rightarrow> string \<times> cookie_jar" where
  "generateCSRFToken hm fresh_secret fresh_token jar =
     (let stored = cookie_get jar CSRF_SECRET_NAME;
          secret = (case stored of
                      None \<Rightarrow> fresh_secret
                    | Some s \<Rightarrow> if s \<noteq> [] then s else fresh_secret);
          jar1 = (if truthy stored then jar
                  else cookie_set jar CSRF_SECRET_NAME fresh_secret (60 * 60 * 24));
          token = fresh_token;
          signature = hm secret token;
          csrfToken = token @ ''.'' @ signature;
          jar2 = cookie_set jar1 CSRF_TOKEN_NAME csrfToken (60 * 60)
      in (csrfToken, jar2))"

text \<open>
  The body of the \<open>try\<close> block of \<open>validateCSRFToken\<close>; the candidate is \<open>None\<close> when the
  form has no such field.
\<close>

definition validateCSRFToken_try ::
  "(string \<Rightarrow> string \<Rightarrow> string) \<Rightarrow> string option \<Rightarrow> cookie_jar \<Rightarrow> js_error + bool" where
  "validateCSRFToken_try hm token jar =
     (let storedToken = cookie_get jar CSRF_TOKEN_NAME;
          secret = cookie_get jar CSRF_SECRET_NAME
      in case (storedToken, secret, token) of
           (Some st, Some sec, Some tok) \<Rightarrow>
             if st = [] \<or> sec = [] \<or> tok = [] then Inr False
             else if tok \<noteq> st then Inr False
             else
               (case split CHR ''.'' tok of
                  tokenPart # signature # _ \<Rightarrow>
                    if tokenPart = [] \<or> signature = [] then Inr False
                    else
                      (let expectedSignature = hm sec tokenPart
                       in timingSafeEqual (buffer_from_hex signature)
                            (buffer_from_hex expectedSignature))
                | _ \<Rightarrow> Inr False)
         | _ \<Rightarrow> Inr False)"

text \<open>The \<open>catch\<close> clause turns every exception of the body into \<open>false\<close>.\<close>

definition validateCSRFToken ::
  "(string \<Rightarrow> string \<Rightarrow> string) \<Rightarrow> string option \<Rightarrow> cookie_jar \<Rightarrow> bool" where
  "validateCSRFToken hm token jar =
     (case validateCSRFToken_try hm token jar of
        Inl _ \<Rightarrow> False
      | Inr b \<Rightarrow> b)"

definition clearCSRFTokens :: "cookie_jar \<Rightarrow> cookie_jar" where
  "clearCSRFTokens jar = cookie_delete (cookie_delete jar CSRF_TOKEN_NAME) CSRF_SECRET_NAME"

section \<open>Session management\<close>

definition SESSION_TIMEOUT_MS :: int where
  "SESSION_TIMEOUT_MS = 30 * 60 * 1000"

definition SESSION_WARNING_MS :: int where
  "SESSION_WARNING_MS = 5 * 60 * 1000"

definition MAX_IDLE_TIME_MS :: int where
  "MAX_IDLE_TIME_MS = 60 * 60 * 1000"

text \<open>
  The identity provider: \<open>createClient()\<close> may throw; otherwise \<open>auth.getSession()\<close>
  answers with an error flag and possibly a session. \<open>auth.signOut()\<close> is modelled by its
  contract: afterwards the provider has no session.
\<close>

record SupabaseSession =
  user_id :: string
  access_token :: string

record Supabase =
  createClient_throws :: bool
  getSession_error :: bool
  getSession_session :: "SupabaseSession option"

definition signOut :: "Supabase \<Rightarrow> Supabase" where
  "signOut sb = sb\<lparr>getSession_session := None\<rparr>"

text \<open>
  The logger formats an entry and prints it on the console; it changes nothing else. The
  model keeps the entries handed to \<open>Logger.log\<close>, in order: level, message, context
  (as key and value strings; the value of a caught exception is not modelled and stands as
  the empty string) and the user id argument.
\<close>

datatype LogLevel = Debug | Info | Warn | Error

record LogEntry =
  level :: LogLevel
  message :: string
  log_context :: "(string \<times> string) list"
  entry_userId :: "string option"

record world =
  supabase :: Supabase
  cookies :: cookie_jar
  logged :: "LogEntry list"

definition logger_error :: "string \<Rightarrow> (string \<times> string) list \<Rightarrow> world \<Rightarrow> world" where
  "logger_error msg ctx w =
     w\<lparr>logged := logged w @
         [\<lparr>level = Error, message = msg, log_context = ctx, entry_userId = None\<rparr>]\<rparr>"

definition logger_authEvent :: "string \<Rightarrow> string \<Rightarrow> world \<Rightarrow> world" where
  "logger_authEvent event uid w =
     w\<lparr>logged := logged w @
         [\<lparr>level = Info, message = ''Auth: '' @ event, log_context = [],
           entry_userId = Some uid\<rparr>]\<rparr>"

definition logger_securityEvent :: "string \<Rightarrow> (string \<times> string) list \<Rightarrow> world \<Rightarrow> world" where
  "logger_securityEvent event ctx w =
     w\<lparr>logged := logged w @
         [\<lparr>level = Warn, message = ''Security: '' @ event, log_context = ctx,
           entry_userId = None\<rparr>]\<rparr>"

definition number_toString :: "int option \<Rightarrow> string" where
  "number_toString v = (case v of None \<Rightarrow> ''NaN'' | Some n \<Rightarrow> toString n)"

record SessionInfo =
  userId :: string
  sessionId :: string
  lastActivity :: "int option"
  createdAt :: "int option"
  session_isValid :: bool

text \<open>
  Every exported function reads the clock once in the model: \<open>now\<close> stands for all the
  \<open>Date.now()\<close> readings of one call.
\<close>

definition getCurrentSession :: "int \<Rightarrow> world \<Rightarrow> SessionInfo option \<times> world" where
  "getCurrentSession now w =
     (if createClient_throws (supabase w)
        then (None, logger_error ''Error getting current session'' [(''error'', [])] w)
      else
        (case getSession_session (supabase w) of
           None \<Rightarrow> (None, w)
         | Some session \<Rightarrow>
             if getSession_error (supabase w) then (None, w)
             else
               (let la = cookie_get (cookies w) ''last-activity'';
                    cr = cookie_get (cookies w) ''session-created''
                in (Some \<lparr>userId = user_id session,
                           sessionId = take 16 (access_token session),
                           lastActivity =
                             parseInt (case la of
                                         None \<Rightarrow> ''0''
                                       | Some v \<Rightarrow> if v \<noteq> [] then v else ''0''),
                           createdAt =
                             parseInt (case cr of
                                         None \<Rightarrow> toString now
                                       | Some v \<Rightarrow> if v \<noteq> [] then v else toString now),
                           session_isValid = True\<rparr>, w))))"

definition updateSessionActivity :: "int \<Rightarrow> world \<Rightarrow> world" where
  "updateSessionActivity now w =
     (let jar1 = cookie_set (cookies w) ''last-activity'' (toString now)
                   (SESSION_TIMEOUT_MS div 1000);
          jar2 = (if \<not> truthy (cookie_get jar1 ''session-created'')
                  then cookie_set jar1 ''session-created'' (toString now)
                         (MAX_IDLE_TIME_MS div 1000)
                  else jar1)
      in w\<lparr>cookies := jar2\<rparr>)"

record Validation =
  isValid :: bool
  reason :: "string option"

definition validateSession :: "int \<Rightarrow> world \<Rightarrow> Validation \<times> world" where
  "validateSession now w =
     (case getCurrentSession now w of
        (None, w1) \<Rightarrow> (\<lparr>isValid = False, reason = Some ''No session found''\<rparr>, w1)
      | (Some session, w1) \<Rightarrow>
          if truthy_num (lastActivity session)
             \<and> js_greater (js_minus now (lastActivity session)) MAX_IDLE_TIME_MS
            then (\<lparr>isValid = False, reason = Some ''Session expired due to inactivity''\<rparr>,
                  logger_securityEvent ''Session expired due to inactivity''
                    [(''userId'', userId session),
                     (''idleTime'', number_toString (js_minus now (lastActivity session)))] w1)
          else if js_greater (js_minus now (createdAt session)) (24 * 60 * 60 * 1000)
            then (\<lparr>isValid = False, reason = Some ''Session expired due to age''\<rparr>,
                  logger_securityEvent ''Session expired due to age''
                    [(''userId'', userId session),
                     (''sessionAge'', number_toString (js_minus now (createdAt session)))] w1)
          else (\<lparr>isValid = True, reason = None\<rparr>, w1))"

definition terminateSession :: "string \<Rightarrow> int \<Rightarrow> world \<Rightarrow> world" where
  "terminateSession why now w =
     (case getCurrentSession now w of
        (session, w1) \<Rightarrow>
          if createClient_throws (supabase w1)
            then logger_error ''Error terminating session''
                   [(''error'', []), (''reason'', why)] w1
          else
            (let w2 = (case session of
                         None \<Rightarrow> w1
                       | Some s \<Rightarrow>
                           logger_securityEvent ''Session terminated''
                             [(''userId'', userId s), (''reason'', why)] w1);
                 w3 = w2\<lparr>supabase := signOut (supabase w2)\<rparr>
             in w3\<lparr>cookies :=
                     cookie_delete (cookie_delete (cookies w3) ''last-activity'')
                       ''session-created''\<rparr>))"

record TimeoutInfo =
  timeUntilWarning :: int
  timeUntilTimeout :: int
  shouldWarn :: bool
  shouldTimeout :: bool

definition getSessionTimeoutInfo :: "int \<Rightarrow> world \<Rightarrow> TimeoutInfo option \<times> world" where
  "getSessionTimeoutInfo now w =
     (case getCurrentSession now w of
        (None, w1) \<Rightarrow> (None, w1)
      | (Some session, w1) \<Rightarrow>
          (case lastActivity session of
             None \<Rightarrow> (None, w1)
           | Some la \<Rightarrow>
               if la = 0 then (None, w1)
               else
                 (let timeSinceActivity = now - la;
                      tuw = SESSION_WARNING_MS - timeSinceActivity;
                      tut = SESSION_TIMEOUT_MS - timeSinceActivity
                  in (Some \<lparr>timeUntilWarning = tuw,
                             timeUntilTimeout = tut,
                             shouldWarn = (tuw \<le> 0 \<and> tut > 0),
                             shouldTimeout = (tut \<le> 0)\<rparr>, w1))))"

definition extendSession :: "int \<Rightarrow> world \<Rightarrow> bool \<times> world" where
  "extendSession now w =
     (case validateSession now w of
        (validation, w1) \<Rightarrow>
          if \<not> isValid validation
            then (False,
                  terminateSession
                    (case reason validation of
                       None \<Rightarrow> ''Invalid session''
                     | Some r \<Rightarrow> if r \<noteq> [] then r else ''Invalid session'')
                    now w1)
          else
            (let w2 = updateSessionActivity now w1
             in case getCurrentSession now w2 of
                  (None, w3) \<Rightarrow> (True, w3)
                | (Some session, w3) \<Rightarrow>
                    (True, logger_authEvent ''Session extended'' (userId session) w3)))"

definition initializeSession :: "int \<Rightarrow> world \<Rightarrow> world" where
  "initializeSession now w =
     (case getCurrentSession now w of
        (None, w1) \<Rightarrow> w1
      | (Some session, w1) \<Rightarrow>
          logger_authEvent ''Session initialized'' (userId session)
            (updateSessionActivity now w1))"

section \<open>Auxiliary notions for the proofs\<close>

text \<open>What every stored entry satisfies after any sequence of calls on a new limiter.\<close>

definition entry_ok :: "RateLimiter \<Rightarrow> RateLimitEntry \<Rightarrow> bool" where
  "entry_ok rl e = (1 \<le> count e \<and> (blocked e \<longrightarrow> maxAttempts rl \<le> count e))"

definition entry_tight :: "RateLimiter \<Rightarrow> RateLimitEntry \<Rightarrow> bool" where
  "entry_tight rl e = (maxAttempts rl \<le> count e \<longrightarrow> blocked e)"

text \<open>
  The scenario of three failures of \<open>x\<close> at 0, 100 and 200 ms with at most 3 attempts, a
  window of 1000 ms and a block of 2000 ms.
\<close>

definition scenario_calls :: "rl_call list" where
  "scenario_calls =
     [RecordFailure 0 ''x'', RecordFailure 100 ''x'', RecordFailure 200 ''x'']"

definition scenario :: RateLimiter where
  "scenario =
     recordFailedAttempt 200 ''x'' (recordFailedAttempt 100 ''x''
       (recordFailedAttempt 0 ''x'' (newRateLimiter 3 1000 2000)))"

text \<open>
  Sample inputs: a keyed function with the shape of a hex digest (it is not a secure hash;
  it only serves to run the definitions), three random draws, and worlds in which the
  identity provider has a session.
\<close>

definition sample_hmac :: "string \<Rightarrow> string \<Rightarrow> string" where
  "sample_hmac key msg =
     replicate (2 * TOKEN_LENGTH) (''0123456789abcdef'' ! ((length key + length msg) mod 16))"

definition sample_secret :: string where
  "sample_secret = ''a4c123b1612dd272d1371c17149d439536b3216fdaeeb975729fae923d5a4fd1''"

definition sample_nonce :: string where
  "sample_nonce = ''2aabfe228f219e9cb0eb53f16947ccf25ec84d8dbc74254770f58904dba41ecc''"

definition sample_nonce' :: string where
  "sample_nonce' = ''cc3fc1626e53a13043b026c48bbf33feff9243a8f506b40928b5b7a767c76fb0''"

definition signed_in :: "cookie_jar \<Rightarrow> world" where
  "signed_in jar =
     \<lparr>supabase = \<lparr>createClient_throws = False, getSession_error = False,
                   getSession_session =
                     Some \<lparr>user_id = ''user-1'', access_token = ''0123456789abcdefghij''\<rparr>\<rparr>,
      cookies = jar, logged = []\<rparr>"

text \<open>
  The identity provider answers with a session: the client is created, there is no error
  and a session is present.
\<close>

definition provider_ok :: "world \<Rightarrow> bool" where
  "provider_ok w =
     (\<not> createClient_throws (supabase w) \<and> \<not> getSession_error (supabase w)
      \<and> getSession_session (supabase w) \<noteq> None)"

text \<open>The record that \<open>getCurrentSession\<close> builds from a provider session and the cookies.\<close>

definition session_info :: "int \<Rightarrow> cookie_jar \<Rightarrow> SupabaseSession \<Rightarrow> SessionInfo" where
  "session_info now jar s =
     \<lparr>userId = user_id s, sessionId = take 16 (access_token s),
      lastActivity =
        parseInt (case cookie_get jar ''last-activity'' of
                    None \<Rightarrow> ''0'' | Some v \<Rightarrow> if v \<noteq> [] then v else ''0''),
      createdAt =
        parseInt (case cookie_get jar ''session-created'' of
                    None \<Rightarrow> toString now
                  | Some v \<Rightarrow> if v \<noteq> [] then v else toString now),
      session_isValid = True\<rparr>"

text \<open>The secret that \<open>generateCSRFToken\<close> signs with: the stored one, or the fresh draw.\<close>

definition issued_secret :: "string \<Rightarrow> cookie_jar \<Rightarrow> string" where
  "issued_secret fresh jar =
     (case cookie_get jar CSRF_SECRET_NAME of
        None \<Rightarrow> fresh
      | Some s \<Rightarrow> if s \<noteq> [] then s else fresh)"

text \<open>Further sample states.\<close>

definition provider_down :: world where
  "provider_down = (signed_in Map.empty)\<lparr>supabase :=
     \<lparr>createClient_throws = True, getSession_error = False, getSession_session = None\<rparr>\<rparr>"

definition old_session_jar :: cookie_jar where
  "old_session_jar = cookie_set Map.empty ''session-created'' ''1000'' 3600"

definition active_jar :: cookie_jar where
  "active_jar = cookie_set Map.empty ''last-activity'' ''1000'' 1800"

definition blank_created_jar :: cookie_jar where
  "blank_created_jar = cookie_set Map.empty ''session-created'' [] 3600"

definition short_jar :: cookie_jar where
  "short_jar =
     cookie_set (cookie_set Map.empty CSRF_SECRET_NAME ''k'' (60 * 60 * 24))
       CSRF_TOKEN_NAME ''ab.cd'' (60 * 60)"

definition undotted_jar :: cookie_jar where
  "undotted_jar =
     cookie_set (cookie_set Map.empty CSRF_SECRET_NAME ''k'' (60 * 60 * 24))
       CSRF_TOKEN_NAME ''abcd'' (60 * 60)"

section \<open>Rate limiter: invariant and blocking\<close>

declare dec_digits.simps [simp del]

lemma recordFailedAttempt_settings:
  "maxAttempts (recordFailedAttempt now i rl) = maxAttempts rl"
  "windowMs (recordFailedAttempt now i rl) = windowMs rl"
  "blockDurationMs (recordFailedAttempt now i rl) = blockDurationMs rl"
  by (simp_all add: recordFailedAttempt_def Let_def split: option.split)

lemma rl_step_settings:
  "maxAttempts (rl_step rl c) = maxAttempts rl"
  "windowMs (rl_step rl c) = windowMs rl"
  "blockDurationMs (rl_step rl c) = blockDurationMs rl"
  by (cases c; simp add: recordFailedAttempt_settings recordSuccessfulAttempt_def
        isRateLimited_def split: option.split)+

lemma rl_run_settings:
  "maxAttempts (rl_run rl cs) = maxAttempts rl"
  "windowMs (rl_run rl cs) = windowMs rl"
  "blockDurationMs (rl_run rl cs) = blockDurationMs rl"
  by (induction cs arbitrary: rl; simp add: rl_step_settings)+

lemma recordFailures_settings:
  "maxAttempts (recordFailures ts i rl) = maxAttempts rl"
  "windowMs (recordFailures ts i rl) = windowMs rl"
  "blockDurationMs (recordFailures ts i rl) = blockDurationMs rl"
  by (induction ts arbitrary: rl; simp add: recordFailedAttempt_settings)+

lemma recordFailedAttempt_other:
  "i \<noteq> j \<Longrightarrow> attempts (recordFailedAttempt now j rl) i = attempts rl i"
  by (simp add: recordFailedAttempt_def Let_def split: option.split)

lemma rl_step_entry_ok:
  assumes "\<forall>i e. attempts rl i = Some e \<longrightarrow> entry_ok rl e"
    and "attempts (rl_step rl c) i = Some e"
  shows "entry_ok rl e"
proof (cases c)
  case (RecordFailure now j)
  show ?thesis
  proof (cases "attempts rl j")
    case None
    with assms RecordFailure show ?thesis
      by (auto simp: recordFailedAttempt_def entry_ok_def split: if_splits)
  next
    case (Some e0)
    with assms(1) have old: "entry_ok rl e0" by blast
    show ?thesis
    proof (cases "i = j")
      case True
      with old assms(2) Some RecordFailure show ?thesis
        by (auto simp: recordFailedAttempt_def entry_ok_def Let_def split: if_splits)
    next
      case False
      with assms(2) RecordFailure have "attempts rl i = Some e"
        by (simp add: recordFailedAttempt_other)
      with assms(1) show ?thesis by blast
    qed
  qed
next
  case (RecordSuccess j)
  with assms show ?thesis
    by (auto simp: recordSuccessfulAttempt_def split: if_splits)
next
  case (IsRateLimited now j)
  with assms show ?thesis
    by (auto simp: isRateLimited_def split: option.splits if_splits)
qed

lemma rl_step_entry_tight:
  assumes "2 \<le> maxAttempts rl"
    and "\<forall>i e. attempts rl i = Some e \<longrightarrow> entry_tight rl e"
    and "attempts (rl_step rl c) i = Some e"
  shows "entry_tight rl e"
proof (cases c)
  case (RecordFailure now j)
  show ?thesis
  proof (cases "attempts rl j")
    case None
    with assms RecordFailure show ?thesis
      by (auto simp: recordFailedAttempt_def entry_tight_def split: if_splits)
  next
    case (Some e0)
    with assms(2) have old: "entry_tight rl e0" by blast
    show ?thesis
    proof (cases "i = j")
      case True
      with old assms(1,3) Some RecordFailure show ?thesis
        by (auto simp: recordFailedAttempt_def entry_tight_def Let_def split: if_splits)
    next
      case False
      with assms(3) RecordFailure have "attempts rl i = Some e"
        by (simp add: recordFailedAttempt_other)
      with assms(2) show ?thesis by blast
    qed
  qed
next
  case (RecordSuccess j)
  with assms show ?thesis
    by (auto simp: recordSuccessfulAttempt_def split: if_splits)
next
  case (IsRateLimited now j)
  with assms show ?thesis
    by (auto simp: isRateLimited_def split: option.splits if_splits)
qed

lemma rl_run_entry_ok:
  assumes "\<forall>i e. attempts rl i = Some e \<longrightarrow> entry_ok rl e"
    and "attempts (rl_run rl cs) i = Some e"
  shows "entry_ok rl e"
  using assms
proof (induction cs arbitrary: rl)
  case Nil
  then show ?case by simp
next
  case (Cons c cs)
  have "\<forall>i e. attempts (rl_step rl c) i = Some e \<longrightarrow> entry_ok (rl_step rl c) e"
    using rl_step_entry_ok [OF Cons.prems(1)] by (simp add: entry_ok_def rl_step_settings)
  from Cons.IH [OF this] Cons.prems(2) show ?case
    by (simp add: entry_ok_def rl_step_settings)
qed

lemma rl_run_entry_tight:
  assumes "2 \<le> maxAttempts rl"
    and "\<forall>i e. attempts rl i = Some e \<longrightarrow> entry_tight rl e"
    and "attempts (rl_run rl cs) i = Some e"
  shows "entry_tight rl e"
  using assms
proof (induction cs arbitrary: rl)
  case Nil
  then show ?case by simp
next
  case (Cons c cs)
  have "\<forall>i e. attempts (rl_step rl c) i = Some e \<longrightarrow> entry_tight (rl_step rl c) e"
    using rl_step_entry_tight [OF Cons.prems(1,2)]
    by (simp add: entry_tight_def rl_step_settings)
  from Cons.IH [OF _ this] Cons.prems(1,3) show ?case
    by (simp add: entry_tight_def rl_step_settings)
qed

lemma scenario_entry:
  "attempts scenario ''x'' = Some \<lparr>count = 3, resetTime = 2200, blocked = True\<rparr>"
  by (simp add: scenario_def newRateLimiter_def recordFailedAttempt_def)

lemma isAllowed_blocked:
  "attempts rl i = Some e \<Longrightarrow> blocked e \<Longrightarrow> isAllowed now i rl = (resetTime e < now)"
  by (simp add: isAllowed_def isRateLimited_def)

lemma recordFailures_counting:
  assumes "attempts rl i = Some \<lparr>count = c, resetTime = r, blocked = False\<rparr>"
    and "ts \<noteq> []"
    and "c + int (length ts) = maxAttempts rl"
    and "\<forall>u \<in> set ts. u \<le> r"
  shows "attempts (recordFailures ts i rl) i
           = Some \<lparr>count = maxAttempts rl, resetTime = last ts + blockDurationMs rl,
                   blocked = True\<rparr>"
  using assms
proof (induction ts arbitrary: rl c)
  case Nil
  then show ?case by simp
next
  case (Cons u ts)
  show ?case
  proof (cases "ts = []")
    case True
    with Cons.prems show ?thesis
      by (simp add: recordFailedAttempt_def Let_def)
  next
    case False
    from Cons.prems False have lt: "\<not> maxAttempts rl \<le> c + 1"
      by (cases ts) auto
    let ?rl' = "recordFailedAttempt u i rl"
    have e': "attempts ?rl' i = Some \<lparr>count = c + 1, resetTime = r, blocked = False\<rparr>"
      using Cons.prems lt by (simp add: recordFailedAttempt_def Let_def)
    have "attempts (recordFailures ts i ?rl') i
            = Some \<lparr>count = maxAttempts ?rl', resetTime = last ts + blockDurationMs ?rl',
                    blocked = True\<rparr>"
      using Cons.prems False
      by (intro Cons.IH [OF e']) (simp_all add: recordFailedAttempt_settings)
    with False show ?thesis
      by (simp add: recordFailedAttempt_settings)
  qed
qed

text \<open>
  C1, for limits of at least two attempts. When \<open>maxAttempts\<close> failures of one identifier
  are recorded in one window (the first one opens the window, because the identifier has no
  entry or an expired one, and none of the others comes after the window's end), the
  identifier is denied at every instant up to and including the last failure's time plus
  \<open>blockDurationMs\<close>, and allowed at every later instant: the block is measured from the
  last failure, not from the start of the window.
\<close>

theorem block_after_maxAttempts_failures:
  assumes "2 \<le> maxAttempts rl"
    and "int (length (t # ts)) = maxAttempts rl"
    and "case attempts rl i of None \<Rightarrow> True | Some e \<Rightarrow> resetTime e < t"
    and "\<forall>u \<in> set ts. u \<le> t + windowMs rl"
  shows "isAllowed now i (recordFailures (t # ts) i rl)
           = (last (t # ts) + blockDurationMs rl < now)"
proof -
  let ?rl1 = "recordFailedAttempt t i rl"
  have e1: "attempts ?rl1 i
              = Some \<lparr>count = 1, resetTime = t + windowMs rl, blocked = False\<rparr>"
    using assms(3) by (simp add: recordFailedAttempt_def split: option.splits)
  from assms(1,2) have ne: "ts \<noteq> []" by auto
  have "attempts (recordFailures ts i ?rl1) i
          = Some \<lparr>count = maxAttempts ?rl1, resetTime = last ts + blockDurationMs ?rl1,
                  blocked = True\<rparr>"
    using assms(2,4) ne
    by (intro recordFailures_counting [OF e1]) (simp_all add: recordFailedAttempt_settings)
  then have "isAllowed now i (recordFailures ts i ?rl1)
               = (last ts + blockDurationMs rl < now)"
    by (simp add: isAllowed_blocked recordFailedAttempt_settings)
  with ne show ?thesis by simp
qed

theorem block_after_maxAttempts_failures_witness:
  "isAllowed 2200 ''y'' (recordFailures [0, 100, 200] ''y'' (newRateLimiter 3 1000 2000))
     = False
   \<and> isAllowed 2201 ''y'' (recordFailures [0, 100, 200] ''y'' (newRateLimiter 3 1000 2000))"
  using block_after_maxAttempts_failures
          [of "newRateLimiter 3 1000 2000" 0 "[100, 200]" "''y''" 2200]
        block_after_maxAttempts_failures
          [of "newRateLimiter 3 1000 2000" 0 "[100, 200]" "''y''" 2201]
  by (simp add: newRateLimiter_def)

text \<open>
  With a limit of one attempt the single failure only opens a window: the entry is not
  blocked, and the identifier is allowed again once the window (1000 ms) is over, before
  the block duration (2000 ms) has elapsed.
\<close>

theorem single_attempt_limit_counterexample:
  "isAllowed 1001 ''x'' (recordFailures [0] ''x'' (newRateLimiter 1 1000 2000))
   \<and> \<not> (0 + blockDurationMs (newRateLimiter 1 1000 2000) \<le> 1001)"
  by (simp add: isAllowed_def isRateLimited_def recordFailedAttempt_def newRateLimiter_def)

text \<open>
  C2, with the boundary instant on the denied side. After the three failures of the
  scenario, \<open>x\<close> is allowed exactly at the instants after 2200 ms: it is denied at every
  instant from 201 to 2200 ms, 2200 included, and allowed from 2201 ms on.
\<close>

theorem scenario_allowed_iff:
  "isAllowed t ''x'' scenario = (2200 < t)"
  by (simp add: isAllowed_blocked [OF scenario_entry])

theorem scenario_boundary_counterexample:
  "\<not> isAllowed 2200 ''x'' scenario"
  by (simp add: isAllowed_blocked [OF scenario_entry])

text \<open>
  C9. On a limiter created with a limit of at least two attempts, after any sequence of
  \<open>recordFailedAttempt\<close>, \<open>recordSuccessfulAttempt\<close> and \<open>isRateLimited\<close> calls, every
  stored entry has a count of at least one and is blocked exactly when its count has
  reached the limit; so \<open>isRateLimited\<close> answers true only through its blocked branch.
\<close>

theorem rl_invariant:
  assumes "2 \<le> m"
    and "attempts (rl_run (newRateLimiter m w b) calls) i = Some e"
  shows "1 \<le> count e \<and> (blocked e \<longleftrightarrow> m \<le> count e)
       \<and> fst (isRateLimited now i (rl_run (newRateLimiter m w b) calls))
           = (blocked e \<and> now \<le> resetTime e)"
proof -
  let ?rl = "newRateLimiter m w b"
  have m: "maxAttempts ?rl = m" by (simp add: newRateLimiter_def)
  have ok: "entry_ok ?rl e"
    by (rule rl_run_entry_ok [OF _ assms(2)]) (simp add: newRateLimiter_def)
  have tight: "entry_tight ?rl e"
    by (rule rl_run_entry_tight [OF _ _ assms(2)]) (simp_all add: newRateLimiter_def assms(1))
  from ok tight m have inv: "1 \<le> count e" "blocked e \<longleftrightarrow> m \<le> count e"
    by (auto simp: entry_ok_def entry_tight_def)
  have "fst (isRateLimited now i (rl_run ?rl calls)) = (blocked e \<and> now \<le> resetTime e)"
    using assms(2) inv(2) by (auto simp: isRateLimited_def rl_run_settings m)
  with inv show ?thesis by simp
qed

theorem rl_invariant_witness:
  "(2::int) \<le> 3
   \<and> attempts (rl_run (newRateLimiter 3 1000 2000) scenario_calls) ''x''
       = Some \<lparr>count = 3, resetTime = 2200, blocked = True\<rparr>
   \<and> fst (isRateLimited 2200 ''x'' (rl_run (newRateLimiter 3 1000 2000) scenario_calls))"
  using rl_invariant [of 3 1000 2000 scenario_calls "''x''"
      "\<lparr>count = 3, resetTime = 2200, blocked = True\<rparr>" 2200]
  by (simp add: scenario_calls_def newRateLimiter_def recordFailedAttempt_def)

text \<open>
  C10. When an identifier's entry is blocked and its block has not expired
  (\<open>now \<le> resetTime\<close>), a further failure increments the count, keeps the entry blocked and
  sets \<open>resetTime\<close> to \<open>now + blockDurationMs\<close>. The entry is one that a limiter holds after
  some sequence of calls.
\<close>

theorem failure_during_block_extends:
  assumes "attempts (rl_run (newRateLimiter m w b) calls) i = Some e"
    and "blocked e"
    and "now \<le> resetTime e"
  shows "attempts (recordFailedAttempt now i (rl_run (newRateLimiter m w b) calls)) i
           = Some \<lparr>count = count e + 1, resetTime = now + b, blocked = True\<rparr>"
proof -
  let ?rl = "newRateLimiter m w b"
  have "entry_ok ?rl e"
    by (rule rl_run_entry_ok [OF _ assms(1)]) (simp add: newRateLimiter_def)
  with assms(2) have "m \<le> count e"
    by (simp add: entry_ok_def newRateLimiter_def)
  moreover have "maxAttempts (rl_run ?rl calls) = m" "blockDurationMs (rl_run ?rl calls) = b"
    by (simp_all add: rl_run_settings newRateLimiter_def)
  ultimately show ?thesis
    using assms by (simp add: recordFailedAttempt_def Let_def)
qed

theorem failure_during_block_extends_witness:
  "attempts (rl_run (newRateLimiter 3 1000 2000) scenario_calls) ''x''
       = Some \<lparr>count = 3, resetTime = 2200, blocked = True\<rparr>
   \<and> attempts (recordFailedAttempt 1500 ''x''
         (rl_run (newRateLimiter 3 1000 2000) scenario_calls)) ''x''
       = Some \<lparr>count = 4, resetTime = 3500, blocked = True\<rparr>"
  using failure_during_block_extends [of 3 1000 2000 scenario_calls "''x''"
      "\<lparr>count = 3, resetTime = 2200, blocked = True\<rparr>" 1500]
  by (simp add: scenario_calls_def newRateLimiter_def recordFailedAttempt_def)

section \<open>Numbers and strings\<close>

lemma digit_val_digit_char: "d < 10 \<Longrightarrow> digit_val (digit_char d) = Some d"
proof -
  assume "d < 10"
  then have "d \<in> {0, 1, 2, 3, 4, 5, 6, 7, 8, 9}" by auto
  then show ?thesis
    by (auto simp: digit_val_def digit_char_def)
qed

lemma digit_of_digit_char: "d < 10 \<Longrightarrow> digit_of 10 (digit_char d) = Some d"
  by (simp add: digit_of_def digit_val_digit_char)

lemma digit_char_facts:
  assumes "d < 10"
  shows "\<not> is_space (digit_char d)" "digit_char d \<noteq> CHR ''-''" "digit_char d \<noteq> CHR ''+''"
    "digit_char d \<noteq> CHR ''x''" "digit_char d \<noteq> CHR ''X''"
proof -
  from assms have "d \<in> {0, 1, 2, 3, 4, 5, 6, 7, 8, 9}" by auto
  then show "\<not> is_space (digit_char d)" "digit_char d \<noteq> CHR ''-''" "digit_char d \<noteq> CHR ''+''"
    "digit_char d \<noteq> CHR ''x''" "digit_char d \<noteq> CHR ''X''"
    by (auto simp: digit_char_def is_space_def)
qed

lemma dec_digits_all_digits: "\<forall>c \<in> set (dec_digits n). \<exists>d < 10. c = digit_char d"
proof (induction n rule: dec_digits.induct)
  case (1 n)
  show ?case
  proof (cases "n < 10")
    case True
    then show ?thesis by (subst dec_digits.simps) auto
  next
    case False
    with 1 show ?thesis
      by (subst dec_digits.simps) (auto intro: exI [of _ "n mod 10"])
  qed
qed

lemma dec_digits_nonempty: "dec_digits n \<noteq> []"
  by (subst dec_digits.simps) simp

lemma digits_value_append:
  "digits_value r (xs @ [c]) = digits_value r xs * r + (case digit_of r c of None \<Rightarrow> 0 | Some d \<Rightarrow> d)"
  by (simp add: digits_value_def)

lemma digits_value_dec_digits: "digits_value 10 (dec_digits n) = n"
proof (induction n rule: dec_digits.induct)
  case (1 n)
  show ?case
  proof (cases "n < 10")
    case True
    then show ?thesis
      by (subst dec_digits.simps) (simp add: digits_value_def digit_of_digit_char)
  next
    case False
    with 1 show ?thesis
      by (subst dec_digits.simps) (simp add: digits_value_append digit_of_digit_char)
  qed
qed

lemma parse_dec_digits:
  "parseInt (dec_digits n) = Some (int n)"
proof -
  obtain c cs where cs: "dec_digits n = c # cs"
    using dec_digits_nonempty [of n] by (cases "dec_digits n") auto
  have all: "\<forall>x \<in> set (c # cs). \<exists>d < 10. x = digit_char d"
    using dec_digits_all_digits [of n] cs by simp
  then have c: "\<not> is_space c" "c \<noteq> CHR ''-''" "c \<noteq> CHR ''+''"
    using digit_char_facts by auto
  have nohex: "\<not> has_hex_prefix (c # cs)"
  proof (cases cs)
    case Nil
    then show ?thesis by (simp add: has_hex_prefix_def)
  next
    case (Cons b bs)
    with all have "b \<noteq> CHR ''x''" "b \<noteq> CHR ''X''"
      using digit_char_facts by auto
    with Cons show ?thesis by (simp add: has_hex_prefix_def)
  qed
  have tw: "takeWhile (is_digit_of 10) (c # cs) = c # cs"
    using all by (intro takeWhile_eq_all_conv [THEN iffD2]) (auto simp: is_digit_of_def digit_of_digit_char)
  show ?thesis
    unfolding parseInt_def cs
    using c nohex tw digits_value_dec_digits [of n]
    by (simp add: cs Let_def)
qed

lemma parseInt_toString: "parseInt (toString n) = Some n"
proof (cases "n < 0")
  case False
  then show ?thesis by (simp add: toString_def parse_dec_digits)
next
  case True
  obtain c cs where cs: "dec_digits (nat (- n)) = c # cs"
    using dec_digits_nonempty [of "nat (- n)"] by (cases "dec_digits (nat (- n))") auto
  have all: "\<forall>x \<in> set (c # cs). \<exists>d < 10. x = digit_char d"
    using dec_digits_all_digits [of "nat (- n)"] cs by simp
  have nohex: "\<not> has_hex_prefix (c # cs)"
  proof (cases cs)
    case Nil
    then show ?thesis by (simp add: has_hex_prefix_def)
  next
    case (Cons b bs)
    with all have "b \<noteq> CHR ''x''" "b \<noteq> CHR ''X''"
      using digit_char_facts by auto
    with Cons show ?thesis by (simp add: has_hex_prefix_def)
  qed
  have tw: "takeWhile (is_digit_of 10) (c # cs) = c # cs"
    using all by (intro takeWhile_eq_all_conv [THEN iffD2]) (auto simp: is_digit_of_def digit_of_digit_char)
  have sp: "\<not> is_space CHR ''-''" by (simp add: is_space_def)
  show ?thesis
    using True sp nohex tw digits_value_dec_digits [of "nat (- n)"]
    by (simp add: toString_def parseInt_def cs Let_def)
qed

lemma parseInt_zero: "parseInt ''0'' = Some 0"
  by (simp add: parseInt_def is_space_def has_hex_prefix_def is_digit_of_def digit_of_def
        digit_val_def digits_value_def)

lemma parseInt_empty: "parseInt [] = None"
  by (simp add: parseInt_def has_hex_prefix_def)

lemma parseInt_1000: "parseInt ''1000'' = Some 1000"
  by (simp add: parseInt_def is_space_def has_hex_prefix_def is_digit_of_def digit_of_def
        digit_val_def digits_value_def)

lemma split_no_sep: "c \<notin> set s \<Longrightarrow> split c s = [s]"
  by (induction s) auto

lemma split_at_sep:
  "c \<notin> set a \<Longrightarrow> split c (a @ c # b) = a # split c b"
  by (induction a) auto

lemma is_hex_string_facts:
  assumes "is_hex_string s"
  shows "s \<noteq> []" "CHR ''.'' \<notin> set s"
proof -
  from assms have len: "length s = 64"
    and all: "\<forall>c \<in> set s. c \<in> set ''0123456789abcdef''"
    by (simp_all add: is_hex_string_def TOKEN_LENGTH_def list_all_iff del: set_simps)
  from len show "s \<noteq> []" by auto
  have "CHR ''.'' \<notin> set ''0123456789abcdef''" by simp
  with all show "CHR ''.'' \<notin> set s" by blast
qed

lemma sample_hmac_hex: "is_hex_string (sample_hmac k m)"
proof -
  have "''0123456789abcdef'' ! ((length k + length m) mod 16) \<in> set ''0123456789abcdef''"
    by (rule nth_mem) simp
  then show ?thesis
    by (simp add: is_hex_string_def sample_hmac_def list_all_iff del: set_simps)
qed

lemma timingSafeEqual_same: "timingSafeEqual a a = Inr True"
  by (simp add: timingSafeEqual_def)

lemma sample_draws:
  "is_hex_string sample_secret" "is_hex_string sample_nonce" "is_hex_string sample_nonce'"
  by (simp_all add: is_hex_string_def TOKEN_LENGTH_def sample_secret_def sample_nonce_def
        sample_nonce'_def)

lemma sample_nonces_differ: "sample_nonce' \<noteq> sample_nonce"
  by (simp add: sample_nonce_def sample_nonce'_def)

lemma cookie_get_set:
  "cookie_get (cookie_set jar n v age) n' = (if n' = n then Some v else cookie_get jar n')"
  by (simp add: cookie_get_def cookie_set_def)

lemma cookie_get_empty: "cookie_get Map.empty n = None"
  by (simp add: cookie_get_def)

section \<open>CSRF tokens: issuing and validating\<close>

lemma CSRF_names_differ: "CSRF_TOKEN_NAME \<noteq> CSRF_SECRET_NAME"
  by (simp add: CSRF_TOKEN_NAME_def CSRF_SECRET_NAME_def)

lemma generateCSRFToken_result:
  assumes "generateCSRFToken hm fs ft jar = (T, jar')"
  shows "T = ft @ ''.'' @ hm (issued_secret fs jar) ft"
    and "cookie_get jar' CSRF_TOKEN_NAME = Some T"
    and "cookie_get jar' CSRF_SECRET_NAME = Some (issued_secret fs jar)"
proof -
  from assms show T: "T = ft @ ''.'' @ hm (issued_secret fs jar) ft"
    by (simp add: generateCSRFToken_def issued_secret_def Let_def)
  from assms show "cookie_get jar' CSRF_TOKEN_NAME = Some T"
    by (auto simp add: generateCSRFToken_def Let_def cookie_get_set)
  have "cookie_get jar' CSRF_SECRET_NAME
          = cookie_get (if truthy (cookie_get jar CSRF_SECRET_NAME) then jar
                        else cookie_set jar CSRF_SECRET_NAME fs (60 * 60 * 24)) CSRF_SECRET_NAME"
    using assms CSRF_names_differ
    by (auto simp add: generateCSRFToken_def Let_def cookie_get_set)
  also have "\<dots> = Some (issued_secret fs jar)"
    by (cases "cookie_get jar CSRF_SECRET_NAME")
       (simp_all add: truthy_def issued_secret_def cookie_get_set)
  finally show "cookie_get jar' CSRF_SECRET_NAME = Some (issued_secret fs jar)" .
qed

lemma issued_tokens_differ:
  assumes "length ft' = length ft" and "ft' \<noteq> ft"
  shows "fst (generateCSRFToken hm fs' ft' jar') \<noteq> fst (generateCSRFToken hm fs ft jar)"
  using assms by (simp add: generateCSRFToken_def Let_def)

lemma issued_secret_nonempty: "fs \<noteq> [] \<Longrightarrow> issued_secret fs jar \<noteq> []"
  by (simp add: issued_secret_def split: option.split)

lemma validate_stored_wellformed:
  assumes "cookie_get jar CSRF_TOKEN_NAME = Some (a @ ''.'' @ hm sec a)"
    and "cookie_get jar CSRF_SECRET_NAME = Some sec"
    and "sec \<noteq> []" "a \<noteq> []" "CHR ''.'' \<notin> set a"
    and "hm sec a \<noteq> []" "CHR ''.'' \<notin> set (hm sec a)"
  shows "validateCSRFToken hm (Some (a @ ''.'' @ hm sec a)) jar"
  using assms
  by (simp add: validateCSRFToken_def validateCSRFToken_try_def split_at_sep split_no_sep
        timingSafeEqual_same)

lemma validate_mismatch:
  "token \<noteq> cookie_get jar CSRF_TOKEN_NAME \<Longrightarrow> \<not> validateCSRFToken hm token jar"
  by (auto simp add: validateCSRFToken_def validateCSRFToken_try_def split: option.split)

lemma validate_only_stored:
  "validateCSRFToken hm c jar \<Longrightarrow> c = cookie_get jar CSRF_TOKEN_NAME"
  using validate_mismatch by blast

lemma validate_missing:
  "token = None \<or> token = Some [] \<or> \<not> truthy (cookie_get jar CSRF_TOKEN_NAME)
     \<or> \<not> truthy (cookie_get jar CSRF_SECRET_NAME)
   \<Longrightarrow> \<not> validateCSRFToken hm token jar"
  by (auto simp add: validateCSRFToken_def validateCSRFToken_try_def truthy_def
        split: option.split)

lemma validate_no_separator:
  assumes "token = Some tok" and "CHR ''.'' \<notin> set tok"
  shows "\<not> validateCSRFToken hm token jar"
  using assms
  by (auto simp add: validateCSRFToken_def validateCSRFToken_try_def split_no_sep
        split: option.split)

lemma validate_exception:
  "validateCSRFToken_try hm token jar = Inl err \<Longrightarrow> \<not> validateCSRFToken hm token jar"
  by (simp add: validateCSRFToken_def)

lemma short_jar_throws:
  "validateCSRFToken_try sample_hmac (Some ''ab.cd'') short_jar = Inl RangeError"
  by code_simp

text \<open>
  C4. Let the keyed hash and the random draws have the shape of hex digests. Right after
  \<open>generateCSRFToken\<close> returns a token \<open>T\<close>, \<open>validateCSRFToken\<close> accepts \<open>T\<close>. After a
  second \<open>generateCSRFToken\<close> returns a token \<open>T2\<close> distinct from \<open>T\<close>, validation
  rejects \<open>T\<close> and accepts \<open>T2\<close>. At each moment the only candidate that validates is
  the token issued last, so two distinct tokens are never valid together.
\<close>

theorem csrf_issue_then_validate:
  assumes hm: "\<forall>k m. is_hex_string (hm k m)"
    and draws: "is_hex_string fs" "is_hex_string ft" "is_hex_string fs'" "is_hex_string ft'"
    and first: "generateCSRFToken hm fs ft jar = (T, jar1)"
    and second: "generateCSRFToken hm fs' ft' jar1 = (T2, jar2)"
    and distinct: "T2 \<noteq> T"
  shows "validateCSRFToken hm (Some T) jar1
       \<and> validateCSRFToken hm (Some T2) jar2
       \<and> \<not> validateCSRFToken hm (Some T) jar2
       \<and> (\<forall>c. validateCSRFToken hm c jar1 \<longrightarrow> c = Some T)
       \<and> (\<forall>c. validateCSRFToken hm c jar2 \<longrightarrow> c = Some T2)"
proof -
  note r1 = generateCSRFToken_result [OF first]
  note r2 = generateCSRFToken_result [OF second]
  have v1: "validateCSRFToken hm (Some T) jar1"
    unfolding r1(1)
    using r1 hm draws
    by (intro validate_stored_wellformed)
       (simp_all add: is_hex_string_facts issued_secret_nonempty)
  have v2: "validateCSRFToken hm (Some T2) jar2"
    unfolding r2(1)
    using r2 hm draws
    by (intro validate_stored_wellformed)
       (simp_all add: is_hex_string_facts issued_secret_nonempty)
  have only1: "\<forall>c. validateCSRFToken hm c jar1 \<longrightarrow> c = Some T"
    using validate_only_stored [of hm _ jar1] r1(2) by simp
  have only2: "\<forall>c. validateCSRFToken hm c jar2 \<longrightarrow> c = Some T2"
    using validate_only_stored [of hm _ jar2] r2(2) by simp
  from distinct only2 have "\<not> validateCSRFToken hm (Some T) jar2" by blast
  with v1 v2 only1 only2 show ?thesis by blast
qed

theorem csrf_issue_then_validate_witness:
  "validateCSRFToken sample_hmac
     (Some (fst (generateCSRFToken sample_hmac sample_secret sample_nonce Map.empty)))
     (snd (generateCSRFToken sample_hmac sample_secret sample_nonce Map.empty))
   \<and> \<not> validateCSRFToken sample_hmac
     (Some (fst (generateCSRFToken sample_hmac sample_secret sample_nonce Map.empty)))
     (snd (generateCSRFToken sample_hmac sample_secret sample_nonce'
        (snd (generateCSRFToken sample_hmac sample_secret sample_nonce Map.empty))))"
proof -
  have hm: "\<forall>k m. is_hex_string (sample_hmac k m)"
    by (simp add: sample_hmac_hex)
  have first: "generateCSRFToken sample_hmac sample_secret sample_nonce Map.empty
      = (fst (generateCSRFToken sample_hmac sample_secret sample_nonce Map.empty),
         snd (generateCSRFToken sample_hmac sample_secret sample_nonce Map.empty))"
    by simp
  have second: "generateCSRFToken sample_hmac sample_secret sample_nonce'
        (snd (generateCSRFToken sample_hmac sample_secret sample_nonce Map.empty))
      = (fst (generateCSRFToken sample_hmac sample_secret sample_nonce'
           (snd (generateCSRFToken sample_hmac sample_secret sample_nonce Map.empty))),
         snd (generateCSRFToken sample_hmac sample_secret sample_nonce'
           (snd (generateCSRFToken sample_hmac sample_secret sample_nonce Map.empty))))"
    by simp
  have distinct: "fst (generateCSRFToken sample_hmac sample_secret sample_nonce'
        (snd (generateCSRFToken sample_hmac sample_secret sample_nonce Map.empty)))
      \<noteq> fst (generateCSRFToken sample_hmac sample_secret sample_nonce Map.empty)"
    using sample_draws sample_nonces_differ
    by (intro issued_tokens_differ) (simp_all add: is_hex_string_def)
  from csrf_issue_then_validate [OF hm sample_draws(1) sample_draws(2) sample_draws(1)
      sample_draws(3) first second distinct]
  show ?thesis by blast
qed

text \<open>
  C5. \<open>validateCSRFToken\<close> answers false when the candidate, the stored token or the
  stored secret is missing or empty; when the candidate differs from the stored token, in
  particular when it is the stored token with one character of its signature changed; and
  when the candidate has no \<open>.\<close> separator. An exception of the body of the \<open>try\<close> block
  (here the \<open>RangeError\<close> of the byte comparison) gives false as well: the result is always
  a boolean.
\<close>

theorem csrf_validation_fails_closed:
  "(token = None \<or> token = Some [] \<or> \<not> truthy (cookie_get jar CSRF_TOKEN_NAME)
      \<or> \<not> truthy (cookie_get jar CSRF_SECRET_NAME)
     \<longrightarrow> \<not> validateCSRFToken hm token jar)
   \<and> (token \<noteq> cookie_get jar CSRF_TOKEN_NAME \<longrightarrow> \<not> validateCSRFToken hm token jar)
   \<and> (cookie_get jar CSRF_TOKEN_NAME = Some (nonce @ ''.'' @ sg) \<and> k < length sg
        \<and> ch \<noteq> sg ! k
     \<longrightarrow> \<not> validateCSRFToken hm (Some (nonce @ ''.'' @ sg[k := ch])) jar)
   \<and> (token = Some tok \<and> CHR ''.'' \<notin> set tok \<longrightarrow> \<not> validateCSRFToken hm token jar)
   \<and> (validateCSRFToken_try hm token jar = Inl err \<longrightarrow> \<not> validateCSRFToken hm token jar)"
proof -
  have mutated: "\<not> validateCSRFToken hm (Some (nonce @ ''.'' @ sg[k := ch])) jar"
    if "cookie_get jar CSRF_TOKEN_NAME = Some (nonce @ ''.'' @ sg)" "k < length sg"
      "ch \<noteq> sg ! k"
  proof -
    from that(2,3) have "sg[k := ch] \<noteq> sg"
      by (metis nth_list_update_eq)
    with that(1) show ?thesis
      by (intro validate_mismatch) simp
  qed
  show ?thesis
    using validate_missing [of token jar hm] validate_mismatch [of token jar hm]
      validate_no_separator [of token tok hm jar] validate_exception [of hm token jar err]
      mutated
    by blast
qed

theorem csrf_validation_fails_closed_witness:
  "\<not> validateCSRFToken sample_hmac None short_jar
   \<and> \<not> validateCSRFToken sample_hmac (Some ''ab.ce'') short_jar
   \<and> \<not> validateCSRFToken sample_hmac (Some ''abcd'') undotted_jar
   \<and> validateCSRFToken_try sample_hmac (Some ''ab.cd'') short_jar = Inl RangeError
   \<and> \<not> validateCSRFToken sample_hmac (Some ''ab.cd'') short_jar"
proof -
  have stored: "cookie_get short_jar CSRF_TOKEN_NAME = Some (''ab'' @ ''.'' @ ''cd'')"
    by (simp add: short_jar_def cookie_get_set)
  have 1: "\<not> validateCSRFToken sample_hmac None short_jar"
    using csrf_validation_fails_closed
            [where token = None and jar = short_jar and hm = sample_hmac] by simp
  have 2: "\<not> validateCSRFToken sample_hmac (Some ''ab.ce'') short_jar"
    using csrf_validation_fails_closed
            [where jar = short_jar and nonce = "''ab''" and sg = "''cd''" and k = 1
               and ch = "CHR ''e''" and hm = sample_hmac]
      stored by simp
  have 3: "\<not> validateCSRFToken sample_hmac (Some ''abcd'') undotted_jar"
    using csrf_validation_fails_closed
            [where token = "Some ''abcd''" and jar = undotted_jar and hm = sample_hmac
               and tok = "''abcd''"]
    by simp
  have 4: "\<not> validateCSRFToken sample_hmac (Some ''ab.cd'') short_jar"
    using csrf_validation_fails_closed
            [where token = "Some ''ab.cd''" and jar = short_jar and hm = sample_hmac
               and err = RangeError]
      short_jar_throws by simp
  from 1 2 3 4 short_jar_throws show ?thesis by simp
qed

section \<open>Session management: validation, termination, extension\<close>

lemma getCurrentSession_absent:
  "\<not> provider_ok w \<Longrightarrow> fst (getCurrentSession now w) = None"
  by (auto simp: getCurrentSession_def provider_ok_def split: option.split)

lemma getCurrentSession_present:
  assumes "provider_ok w"
  obtains s where "getSession_session (supabase w) = Some s"
    and "getCurrentSession now w = (Some (session_info now (cookies w) s), w)"
proof -
  from assms obtain s where s: "getSession_session (supabase w) = Some s"
    by (auto simp: provider_ok_def)
  with assms have "getCurrentSession now w = (Some (session_info now (cookies w) s), w)"
    by (simp add: getCurrentSession_def provider_ok_def session_info_def Let_def)
  with s that show thesis by blast
qed

lemma getCurrentSession_keeps:
  "supabase (snd (getCurrentSession now w)) = supabase w"
  "cookies (snd (getCurrentSession now w)) = cookies w"
  by (simp_all add: getCurrentSession_def logger_error_def Let_def split: option.split)

lemma validateSession_absent:
  "\<not> provider_ok w \<Longrightarrow> fst (validateSession now w)
      = \<lparr>isValid = False, reason = Some ''No session found''\<rparr>"
  using getCurrentSession_absent [of w now]
  by (cases "getCurrentSession now w") (simp add: validateSession_def)

lemma validateSession_keeps:
  "supabase (snd (validateSession now w)) = supabase w"
  "cookies (snd (validateSession now w)) = cookies w"
  using getCurrentSession_keeps [of now w]
  by (cases "getCurrentSession now w";
      simp add: validateSession_def logger_securityEvent_def split: option.split)+

lemma validateSession_no_activity:
  assumes "provider_ok w" and "cookie_get (cookies w) ''last-activity'' = None"
  shows "isValid (fst (validateSession now w))
     = (\<not> js_greater (js_minus now
            (parseInt (case cookie_get (cookies w) ''session-created'' of
                         None \<Rightarrow> toString now
                       | Some v \<Rightarrow> if v \<noteq> [] then v else toString now)))
          (24 * 60 * 60 * 1000))"
proof -
  from assms(1) obtain s where
    "getCurrentSession now w = (Some (session_info now (cookies w) s), w)"
    by (rule getCurrentSession_present)
  with assms(2) show ?thesis
    by (simp add: validateSession_def session_info_def parseInt_zero truthy_num_def)
qed

lemma provider_ok_signed_in: "provider_ok (signed_in jar)"
  by (simp add: provider_ok_def signed_in_def)

lemma cookies_signed_in: "cookies (signed_in jar) = jar"
  by (simp add: signed_in_def)

lemma supabase_logger:
  "supabase (logger_error m c w) = supabase w"
  "supabase (logger_securityEvent m c w) = supabase w"
  "supabase (logger_authEvent m u w) = supabase w"
  "cookies (logger_error m c w) = cookies w"
  "cookies (logger_securityEvent m c w) = cookies w"
  "cookies (logger_authEvent m u w) = cookies w"
  by (simp_all add: logger_error_def logger_securityEvent_def logger_authEvent_def)

lemma getCurrentSession_no_session:
  "getSession_session (supabase w) = None \<Longrightarrow> fst (getCurrentSession now w) = None"
  by (simp add: getCurrentSession_def)

lemma getCurrentSession_throws:
  "createClient_throws (supabase w) \<Longrightarrow> fst (getCurrentSession now w) = None"
  by (simp add: getCurrentSession_def)

lemma terminateSession_absent:
  "fst (getCurrentSession later (terminateSession why now w)) = None"
proof (cases "createClient_throws (supabase w)")
  case True
  then have "createClient_throws (supabase (terminateSession why now w))"
    using getCurrentSession_keeps(1) [of now w]
    by (cases "getCurrentSession now w") (simp add: terminateSession_def supabase_logger)
  then show ?thesis by (rule getCurrentSession_throws)
next
  case False
  then have "getSession_session (supabase (terminateSession why now w)) = None"
    using getCurrentSession_keeps(1) [of now w]
    by (cases "getCurrentSession now w")
       (simp add: terminateSession_def supabase_logger signOut_def Let_def split: option.split)
  then show ?thesis by (rule getCurrentSession_no_session)
qed

lemma validateSession_reason:
  "\<not> isValid (fst (validateSession now w))
   \<Longrightarrow> \<exists>why. why \<noteq> [] \<and> reason (fst (validateSession now w)) = Some why"
  by (cases "getCurrentSession now w")
     (auto simp add: validateSession_def split: option.splits if_splits)

lemma validateSession_valid_provider:
  assumes "isValid (fst (validateSession now w))"
  shows "provider_ok w" "snd (validateSession now w) = w"
proof -
  show ok: "provider_ok w"
    using assms validateSession_absent [of w now] by (cases "provider_ok w") auto
  then obtain s where "getCurrentSession now w = (Some (session_info now (cookies w) s), w)"
    by (rule getCurrentSession_present)
  with assms show "snd (validateSession now w) = w"
    by (auto simp add: validateSession_def split: if_splits)
qed

lemma provider_ok_updateSessionActivity:
  "provider_ok (updateSessionActivity now w) = provider_ok w"
  by (simp add: provider_ok_def updateSessionActivity_def Let_def)

lemma validateSession_idle:
  assumes "provider_ok w" and "cookie_get (cookies w) ''last-activity'' = Some v"
    and "parseInt v = Some la" and "la \<noteq> 0" and "now - la > MAX_IDLE_TIME_MS"
  shows "\<not> isValid (fst (validateSession now w))"
proof -
  from assms(1) obtain s where
    "getCurrentSession now w = (Some (session_info now (cookies w) s), w)"
    by (rule getCurrentSession_present)
  moreover from assms(3) have "v \<noteq> []" using parseInt_empty by auto
  ultimately show ?thesis
    using assms(2-5)
    by (simp add: validateSession_def session_info_def truthy_num_def js_minus_def
          js_greater_def)
qed

text \<open>
  C3, with the missing activity cookie on the allowing side. When the identity provider
  fails, reports an error or has no session, \<open>validateSession\<close> answers invalid; when the
  candidate, the stored token or the stored secret is missing, or the candidate has no
  separator, \<open>validateCSRFToken\<close> answers false. A missing \<open>last-activity\<close> cookie does not
  deny: with a provider session, the idle check is skipped, and the session is valid when
  \<open>session-created\<close> is missing too, and otherwise valid exactly when the creation time it
  holds is at most 24 hours in the past.
\<close>

theorem denial_except_missing_activity:
  "(\<not> provider_ok w \<longrightarrow> \<not> isValid (fst (validateSession now w)))
   \<and> (token = None \<or> token = Some [] \<or> \<not> truthy (cookie_get jar CSRF_TOKEN_NAME)
        \<or> \<not> truthy (cookie_get jar CSRF_SECRET_NAME)
        \<or> (token = Some tok \<and> CHR ''.'' \<notin> set tok)
      \<longrightarrow> \<not> validateCSRFToken hm token jar)
   \<and> (provider_ok w \<and> cookie_get (cookies w) ''last-activity'' = None
        \<and> cookie_get (cookies w) ''session-created'' = None
      \<longrightarrow> isValid (fst (validateSession now w)))
   \<and> (provider_ok w \<and> cookie_get (cookies w) ''last-activity'' = None
        \<and> cookie_get (cookies w) ''session-created'' = Some v \<and> parseInt v = Some c
      \<longrightarrow> isValid (fst (validateSession now w)) = (now - c \<le> 24 * 60 * 60 * 1000))"
proof -
  have a: "\<not> isValid (fst (validateSession now w))" if "\<not> provider_ok w"
    using validateSession_absent [OF that] by simp
  have b: "\<not> validateCSRFToken hm token jar"
    if "token = None \<or> token = Some [] \<or> \<not> truthy (cookie_get jar CSRF_TOKEN_NAME)
        \<or> \<not> truthy (cookie_get jar CSRF_SECRET_NAME)
        \<or> (token = Some tok \<and> CHR ''.'' \<notin> set tok)"
    using that validate_missing [of token jar hm] validate_no_separator [of token tok hm jar]
    by blast
  have c: "isValid (fst (validateSession now w))"
    if "provider_ok w" "cookie_get (cookies w) ''last-activity'' = None"
       "cookie_get (cookies w) ''session-created'' = None"
    using validateSession_no_activity [OF that(1,2), of now] that(3)
    by (simp add: parseInt_toString js_minus_def js_greater_def)
  have d: "isValid (fst (validateSession now w)) = (now - c \<le> 24 * 60 * 60 * 1000)"
    if "provider_ok w" "cookie_get (cookies w) ''last-activity'' = None"
       "cookie_get (cookies w) ''session-created'' = Some v" "parseInt v = Some c"
  proof -
    from that(4) have "v \<noteq> []" using parseInt_empty by auto
    with validateSession_no_activity [OF that(1,2), of now] that(3,4) show ?thesis
      by (auto simp add: js_minus_def js_greater_def)
  qed
  from a b c d show ?thesis by blast
qed

theorem denial_except_missing_activity_witness:
  "\<not> isValid (fst (validateSession 5000 provider_down))
   \<and> \<not> validateCSRFToken sample_hmac None Map.empty
   \<and> isValid (fst (validateSession 5000 (signed_in Map.empty)))
   \<and> \<not> isValid (fst (validateSession 90000000 (signed_in old_session_jar)))"
proof -
  have 1: "\<not> isValid (fst (validateSession 5000 provider_down))"
    using denial_except_missing_activity [where w = provider_down and now = 5000]
    by (simp add: provider_ok_def provider_down_def)
  have 2: "\<not> validateCSRFToken sample_hmac None Map.empty"
    using denial_except_missing_activity
            [where token = None and hm = sample_hmac and jar = Map.empty]
    by simp
  have 3: "isValid (fst (validateSession 5000 (signed_in Map.empty)))"
    using denial_except_missing_activity [where w = "signed_in Map.empty" and now = 5000]
    by (simp add: provider_ok_signed_in cookies_signed_in cookie_get_empty)
  have 4: "\<not> isValid (fst (validateSession 90000000 (signed_in old_session_jar)))"
    using denial_except_missing_activity
            [where w = "signed_in old_session_jar" and now = 90000000 and v = "''1000''"
               and c = 1000]
    by (simp add: provider_ok_signed_in cookies_signed_in old_session_jar_def cookie_get_set
          cookie_get_empty parseInt_1000)
  from 1 2 3 4 show ?thesis by simp
qed

theorem missing_activity_cookie_counterexample:
  "cookie_get (cookies (signed_in Map.empty)) ''last-activity'' = None
   \<and> getSession_session (supabase (signed_in Map.empty)) \<noteq> None
   \<and> isValid (fst (validateSession 5000 (signed_in Map.empty)))"
  by (simp add: signed_in_def cookie_get_def validateSession_def getCurrentSession_def
        parseInt_zero parseInt_toString truthy_num_def js_minus_def js_greater_def)

text \<open>
  C6. \<open>extendSession\<close> evaluates \<open>validateSession\<close> first. When the result is invalid it
  calls \<open>terminateSession\<close> with the reason of the validation and returns false, and
  afterwards \<open>getCurrentSession\<close> reports no session. When the result is valid it calls
  \<open>updateSessionActivity\<close> and returns true. In particular, for a session whose recorded
  last activity (a non-zero time stamp; the code reads \<open>0\<close> as no recorded activity) is
  \<open>MAX_IDLE_TIME_MS + 1\<close> milliseconds in the past, it returns false and leaves no current
  session.
\<close>

theorem extendSession_contract:
  "(\<not> isValid (fst (validateSession now w)) \<longrightarrow>
      (\<exists>why. reason (fst (validateSession now w)) = Some why
         \<and> extendSession now w
             = (False, terminateSession why now (snd (validateSession now w))))
      \<and> fst (getCurrentSession later (snd (extendSession now w))) = None)
   \<and> (isValid (fst (validateSession now w)) \<longrightarrow>
      (\<exists>uid. extendSession now w
         = (True, logger_authEvent ''Session extended'' uid
                    (updateSessionActivity now (snd (validateSession now w))))))
   \<and> (provider_ok w \<and> cookie_get (cookies w) ''last-activity'' = Some v
        \<and> parseInt v = Some la \<and> la \<noteq> 0 \<and> now - la = MAX_IDLE_TIME_MS + 1 \<longrightarrow>
      fst (extendSession now w) = False
      \<and> fst (getCurrentSession later (snd (extendSession now w))) = None)"
proof -
  have invalid:
    "(\<exists>why. reason (fst (validateSession now w)) = Some why
         \<and> extendSession now w
             = (False, terminateSession why now (snd (validateSession now w))))
      \<and> fst (getCurrentSession later (snd (extendSession now w))) = None"
    if inv: "\<not> isValid (fst (validateSession now w))"
  proof -
    from validateSession_reason [OF inv] obtain why where
      why: "why \<noteq> []" "reason (fst (validateSession now w)) = Some why"
      by blast
    with inv have ext: "extendSession now w
        = (False, terminateSession why now (snd (validateSession now w)))"
      by (cases "validateSession now w") (simp add: extendSession_def)
    then have "fst (getCurrentSession later (snd (extendSession now w))) = None"
      by (simp add: terminateSession_absent)
    with why ext show ?thesis by blast
  qed
  have valid:
    "\<exists>uid. extendSession now w
         = (True, logger_authEvent ''Session extended'' uid
                    (updateSessionActivity now (snd (validateSession now w))))"
    if val: "isValid (fst (validateSession now w))"
  proof -
    let ?w2 = "updateSessionActivity now w"
    from validateSession_valid_provider [OF val]
    have ok: "provider_ok w" and same: "snd (validateSession now w) = w" .
    from ok have "provider_ok ?w2"
      by (simp add: provider_ok_updateSessionActivity)
    then obtain s where
      "getCurrentSession now ?w2 = (Some (session_info now (cookies ?w2) s), ?w2)"
      by (rule getCurrentSession_present)
    with val same have "extendSession now w
        = (True, logger_authEvent ''Session extended''
                   (userId (session_info now (cookies ?w2) s)) ?w2)"
      by (cases "validateSession now w") (simp add: extendSession_def Let_def)
    with same show ?thesis by auto
  qed
  have idle: "fst (extendSession now w) = False
      \<and> fst (getCurrentSession later (snd (extendSession now w))) = None"
    if "provider_ok w" "cookie_get (cookies w) ''last-activity'' = Some v"
       "parseInt v = Some la" "la \<noteq> 0" "now - la = MAX_IDLE_TIME_MS + 1"
  proof -
    from that have "\<not> isValid (fst (validateSession now w))"
      by (intro validateSession_idle [where v = v and la = la]) simp_all
    from invalid [OF this] show ?thesis by auto
  qed
  from invalid valid idle show ?thesis by blast
qed

theorem extendSession_contract_witness:
  "fst (extendSession 5000 provider_down) = False
   \<and> fst (getCurrentSession 6000 (snd (extendSession 5000 provider_down))) = None
   \<and> fst (extendSession 5000 (signed_in Map.empty))
   \<and> fst (extendSession 3601001 (signed_in active_jar)) = False
   \<and> fst (getCurrentSession 3601002 (snd (extendSession 3601001 (signed_in active_jar))))
       = None"
proof -
  have "\<not> provider_ok provider_down"
    by (simp add: provider_ok_def provider_down_def)
  then have "\<not> isValid (fst (validateSession 5000 provider_down))"
    by (simp add: validateSession_absent)
  with extendSession_contract
         [where w = provider_down and now = 5000 and later = 6000 and v = "[]" and la = 0]
  have 1: "fst (extendSession 5000 provider_down) = False
     \<and> fst (getCurrentSession 6000 (snd (extendSession 5000 provider_down))) = None"
    by auto
  have "isValid (fst (validateSession 5000 (signed_in Map.empty)))"
    by (simp add: validateSession_no_activity provider_ok_signed_in cookies_signed_in
          cookie_get_empty parseInt_toString js_minus_def js_greater_def)
  with extendSession_contract
         [where w = "signed_in Map.empty" and now = 5000 and later = 6000 and v = "[]"
            and la = 0]
  have 2: "fst (extendSession 5000 (signed_in Map.empty))"
    by auto
  have 3: "fst (extendSession 3601001 (signed_in active_jar)) = False
     \<and> fst (getCurrentSession 3601002 (snd (extendSession 3601001 (signed_in active_jar))))
         = None"
    using extendSession_contract
            [where w = "signed_in active_jar" and now = 3601001 and later = 3601002
               and v = "''1000''" and la = 1000]
    by (simp add: provider_ok_signed_in cookies_signed_in active_jar_def cookie_get_set
          parseInt_1000 MAX_IDLE_TIME_MS_def)
  from 1 2 3 show ?thesis by simp
qed

text \<open>What \<open>getSessionTimeoutInfo\<close> computes for a session with a recorded activity.\<close>

lemma shouldWarn_from_warning_time:
  assumes "provider_ok w" and "cookie_get (cookies w) ''last-activity'' = Some v"
    and "parseInt v = Some la" and "la \<noteq> 0"
  shows "map_option shouldWarn (fst (getSessionTimeoutInfo now w))
           = Some (SESSION_WARNING_MS \<le> now - la \<and> now - la < SESSION_TIMEOUT_MS)"
proof -
  from assms(1) obtain s where
    "getCurrentSession now w = (Some (session_info now (cookies w) s), w)"
    by (rule getCurrentSession_present)
  moreover from assms(3) have "v \<noteq> []" using parseInt_empty by auto
  ultimately show ?thesis
    using assms(2-4)
    by (simp add: getSessionTimeoutInfo_def session_info_def Let_def)
qed

text \<open>
  C7 asks for a warning only during the last five minutes before the 30-minute timeout, as
  the comment on \<open>SESSION_WARNING_MS\<close> says (``5 minutes before timeout''). The code
  subtracts the idle time from \<open>SESSION_WARNING_MS\<close> itself, so it warns from five minutes
  of idleness on: after ten idle minutes, outside the interval from 25 to 30 minutes,
  \<open>shouldWarn\<close> is already true.
\<close>

theorem shouldWarn_after_ten_idle_minutes:
  "map_option shouldWarn (fst (getSessionTimeoutInfo 601000 (signed_in active_jar)))
     = Some True
   \<and> \<not> (SESSION_TIMEOUT_MS - SESSION_WARNING_MS < 601000 - 1000)"
  by (simp add: getSessionTimeoutInfo_def getCurrentSession_def signed_in_def active_jar_def
        cookie_get_set parseInt_1000 Let_def SESSION_TIMEOUT_MS_def SESSION_WARNING_MS_def)

text \<open>
  C8, with the life time the code gives the activity cookie. \<open>updateSessionActivity\<close> sets
  \<open>last-activity\<close> to the current time with a \<open>maxAge\<close> of \<open>SESSION_TIMEOUT_MS\<close>, that
  is 30 minutes; it leaves a \<open>session-created\<close> cookie with a non-empty value as it is,
  and sets \<open>session-created\<close> to the current time when that cookie is missing or empty.
\<close>

theorem updateSessionActivity_cookies:
  "cookies (updateSessionActivity now w) ''last-activity''
     = Some \<lparr>cvalue = toString now, maxAge = SESSION_TIMEOUT_MS div 1000\<rparr>
   \<and> SESSION_TIMEOUT_MS div 1000 = 30 * 60
   \<and> (truthy (cookie_get (cookies w) ''session-created'') \<longrightarrow>
        cookies (updateSessionActivity now w) ''session-created''
          = cookies w ''session-created'')
   \<and> (\<not> truthy (cookie_get (cookies w) ''session-created'') \<longrightarrow>
        cookie_get (cookies (updateSessionActivity now w)) ''session-created''
          = Some (toString now))"
  by (simp add: updateSessionActivity_def Let_def cookie_get_def cookie_set_def
        SESSION_TIMEOUT_MS_def)

theorem updateSessionActivity_cookies_witness:
  "cookies (updateSessionActivity 5000 (signed_in old_session_jar)) ''session-created''
     = Some \<lparr>cvalue = ''1000'', maxAge = 3600\<rparr>
   \<and> cookie_get (cookies (updateSessionActivity 5000 (signed_in Map.empty))) ''session-created''
     = Some ''5000''"
proof -
  have 1: "cookies (updateSessionActivity 5000 (signed_in old_session_jar)) ''session-created''
     = Some \<lparr>cvalue = ''1000'', maxAge = 3600\<rparr>"
    using updateSessionActivity_cookies [where w = "signed_in old_session_jar" and now = 5000]
    by (simp add: cookies_signed_in old_session_jar_def cookie_get_def cookie_set_def
          truthy_def)
  have 2: "cookie_get (cookies (updateSessionActivity 5000 (signed_in Map.empty)))
       ''session-created'' = Some ''5000''"
    using updateSessionActivity_cookies [where w = "signed_in Map.empty" and now = 5000]
    by (simp add: cookies_signed_in cookie_get_empty truthy_def toString_def
          dec_digits.simps digit_char_def)
  from 1 2 show ?thesis by simp
qed

theorem touch_cookie_ttl_counterexample:
  "map_option maxAge (cookies (updateSessionActivity 5000 (signed_in Map.empty)) ''last-activity'')
     \<noteq> Some (MAX_IDLE_TIME_MS div 1000)
   \<and> map_option maxAge
        (cookies (updateSessionActivity 5000 (signed_in Map.empty)) ''session-created'')
     \<noteq> Some (24 * 60 * 60)
   \<and> cookies (signed_in blank_created_jar) ''session-created'' \<noteq> None
   \<and> cookies (updateSessionActivity 5000 (signed_in blank_created_jar)) ''session-created''
     \<noteq> cookies (signed_in blank_created_jar) ''session-created''"
  by (simp add: updateSessionActivity_def Let_def cookie_get_def cookie_set_def signed_in_def
        blank_created_jar_def truthy_def SESSION_TIMEOUT_MS_def MAX_IDLE_TIME_MS_def
        toString_def dec_digits.simps digit_char_def)

end
